theory Spec2Isabelle
  imports Main "HOL-Library.AList" "HOL-Library.Sublist" "HOL-Library.List_Lexorder"
    "HOL-Library.Char_ord"
begin

section \<open>The OpenHarmony SDK bootstrapper (cerbero/bootstrap/ohos.py)\<close>

text \<open>
  A shallow embedding of \<^verbatim>\<open>src/cerbero/bootstrap/ohos.py\<close>. The module's functions keep
  their names, without the leading underscore. The Python library functions they call
  (\<^verbatim>\<open>str.split\<close>, \<^verbatim>\<open>str.lower\<close>, \<^verbatim>\<open>os.path\<close>, \<^verbatim>\<open>glob\<close>, \<^verbatim>\<open>shutil\<close>, \<^verbatim>\<open>zipfile\<close>,
  \<^verbatim>\<open>tarfile\<close>, \<^verbatim>\<open>json\<close>) are modelled in the first subsections, over an explicit file
  system value that every operation takes and returns.
\<close>

subsection \<open>Python exceptions\<close>

datatype py_error =
    IndexError
  | AttributeError
  | JSONDecodeError
  | FileNotFoundError
  | FileExistsError
  | NotADirectoryError
  | IsADirectoryError
  | OSError
  | BadZipFile
  | ReadError
  | ShutilError

subsection \<open>Strings\<close>

text \<open>
  \<^verbatim>\<open>s.split(sep)\<close> for a one-character separator: the pieces between the occurrences of
  the separator; the list always has at least one element.
\<close>

fun py_split :: "char \<Rightarrow> string \<Rightarrow> string list" where
  "py_split sep [] = [[]]"
| "py_split sep (c # cs) =
     (if c = sep then [] # py_split sep cs
      else (case py_split sep cs of
              [] \<Rightarrow> [[c]]
            | w # ws \<Rightarrow> (c # w) # ws))"

text \<open>\<^verbatim>\<open>xs[0]\<close>: raises IndexError on the empty list.\<close>

definition py_index0 :: "'a list \<Rightarrow> py_error + 'a" where
  "py_index0 xs = (case xs of [] \<Rightarrow> Inl IndexError | x # _ \<Rightarrow> Inr x)"

text \<open>
  \<^verbatim>\<open>s.lower()\<close>: the letters A to Z are mapped to a to z; every other character (a
  character is a byte here) is kept.
\<close>

definition lower_char :: "char \<Rightarrow> char" where
  "lower_char c =
     (case map_of (zip ''ABCDEFGHIJKLMNOPQRSTUVWXYZ'' ''abcdefghijklmnopqrstuvwxyz'') c of
        None \<Rightarrow> c
      | Some d \<Rightarrow> d)"

definition py_lower :: "string \<Rightarrow> string" where
  "py_lower s = map lower_char s"

text \<open>\<^verbatim>\<open>s.endswith(t)\<close>.\<close>

definition endswith :: "string \<Rightarrow> string \<Rightarrow> bool" where
  "endswith s t = (length t \<le> length s \<and> drop (length s - length t) s = t)"

text \<open>\<^verbatim>\<open>os.path.basename\<close> (POSIX): what follows the last slash.\<close>

definition os_path_basename :: "string \<Rightarrow> string" where
  "os_path_basename p = rev (takeWhile (\<lambda>c. c \<noteq> CHR ''/'') (rev p))"

text \<open>
  \<^verbatim>\<open>os.path.join(a, b)\<close> (POSIX): an absolute second argument replaces the first; a
  slash is inserted unless the first argument is empty or already ends in one.
\<close>

definition os_path_join :: "string \<Rightarrow> string \<Rightarrow> string" where
  "os_path_join a b =
     (if b \<noteq> [] \<and> hd b = CHR ''/'' then b
      else if a = [] \<or> last a = CHR ''/'' then a @ b
      else a @ ''/'' @ b)"

subsection \<open>Module constants and the pure helpers\<close>

definition SDK_VERSION :: string where
  "SDK_VERSION = ''6.0''"

definition WANTED_COMPONENTS :: "string list" where
  "WANTED_COMPONENTS = [''native'', ''toolchains'', ''ets'', ''js'', ''previewer'']"

definition filename_for_platform :: "string \<Rightarrow> string" where
  "filename_for_platform platform =
     (if platform = ''darwin'' then ''ohos-sdk-mac-public.tar.gz''
      else ''ohos-sdk-windows_linux-public.tar.gz'')"

definition platform_dir_name :: "string \<Rightarrow> string" where
  "platform_dir_name platform =
     (case map_of [(''linux'', ''linux''), (''windows'', ''windows''), (''darwin'', ''mac'')] platform of
        Some d \<Rightarrow> d
      | None \<Rightarrow> platform)"

text \<open>
  \<^verbatim>\<open>_comp_of\<close>, the closure of \<^verbatim>\<open>start\<close> (lines 129 to 133):
  \<^verbatim>\<open>
    base = os.path.basename(path)
    token = base.split(".")[0]
    token = token.split("-")[0].split("_")[0]
  \<close>
  Each \<^verbatim>\<open>[0]\<close> is an indexing that Python checks, so it is a branch of the model.
\<close>

definition comp_of :: "string \<Rightarrow> py_error + string" where
  "comp_of path =
     (let base = os_path_basename path in
      case py_index0 (py_split CHR ''.'' base) of
        Inl e \<Rightarrow> Inl e
      | Inr token \<Rightarrow>
          (case py_index0 (py_split CHR ''-'' token) of
             Inl e \<Rightarrow> Inl e
           | Inr t1 \<Rightarrow> py_index0 (py_split CHR ''_'' t1)))"

subsection \<open>The file system\<close>

text \<open>
  The state of the program is the file system: a tree whose inner nodes are directories
  (an association list from entry names to nodes, in the order in which the operating
  system lists the directory) and whose leaves are files. A file is represented by what
  its readers make of its bytes: a zip container or a gzip-compressed tar container with
  the tree of its members, a JSON document whose top level is an object, or any other
  bytes. There are no symbolic links, permissions or devices. Operations look names up
  with \<^const>\<open>map_of\<close>, and write them with \<^const>\<open>AList.update\<close> and \<^const>\<open>AList.delete\<close>, which keep
  the position of an existing entry and the names distinct.

  A JSON value is a scalar, or \<open>JOther s\<close>: any other value (a float, an array, an
  object), carrying the text \<open>s\<close> that Python's \<^verbatim>\<open>str\<close> prints for it.
\<close>

datatype jvalue = JNull | JBool bool | JInt int | JStr string | JOther string

datatype content =
    Plain string
  | JsonObject "(string \<times> jvalue) list"
  | ZipData "(string \<times> node) list"
  | TarGzData "(string \<times> node) list"
and node =
    File content
  | Dir "(string \<times> node) list"

type_synonym path = "string list"

text \<open>
  Every operation takes the file system and returns its outcome, an exception or a
  value, together with the file system it leaves behind.
\<close>

type_synonym 'a io = "node \<Rightarrow> (py_error + 'a) \<times> node"

text \<open>
  A path string is resolved to the list of its components from the root: empty
  components and \<^verbatim>\<open>.\<close> are dropped, \<^verbatim>\<open>..\<close> drops the component before it (lexically;
  without symbolic links that is the parent directory whenever the operating system
  resolves the path at all). A relative path is resolved from the root.
\<close>

definition resolve_step :: "path \<Rightarrow> string \<Rightarrow> path" where
  "resolve_step acc c =
     (if c = [] \<or> c = ''.'' then acc
      else if c = ''..'' then butlast acc
      else acc @ [c])"

definition resolve :: "string \<Rightarrow> path" where
  "resolve p = foldl resolve_step [] (py_split CHR ''/'' p)"

fun lookup :: "node \<Rightarrow> path \<Rightarrow> node option" where
  "lookup n [] = Some n"
| "lookup (File c) (x # xs) = None"
| "lookup (Dir es) (x # xs) =
     (case map_of es x of None \<Rightarrow> None | Some c \<Rightarrow> lookup c xs)"

definition is_dir :: "node option \<Rightarrow> bool" where
  "is_dir r = (case r of Some (Dir _) \<Rightarrow> True | _ \<Rightarrow> False)"

definition is_file :: "node option \<Rightarrow> bool" where
  "is_file r = (case r of Some (File _) \<Rightarrow> True | _ \<Rightarrow> False)"

definition os_path_exists :: "node \<Rightarrow> string \<Rightarrow> bool" where
  "os_path_exists fs p = (lookup fs (resolve p) \<noteq> None)"

definition os_path_isdir :: "node \<Rightarrow> string \<Rightarrow> bool" where
  "os_path_isdir fs p = is_dir (lookup fs (resolve p))"

definition os_path_isfile :: "node \<Rightarrow> string \<Rightarrow> bool" where
  "os_path_isfile fs p = is_file (lookup fs (resolve p))"

text \<open>
  Writing a node at a path whose parent is a directory, and removing the entry at a
  path. Both leave the tree as it is when the parent is missing or is a file; the
  operations below call them only after they have checked the parent.
\<close>

fun put_at :: "path \<Rightarrow> node \<Rightarrow> node \<Rightarrow> node" where
  "put_at [] new n = new"
| "put_at (x # xs) new (File c) = File c"
| "put_at (x # xs) new (Dir es) =
     (if xs = [] then Dir (AList.update x new es)
      else (case map_of es x of
              None \<Rightarrow> Dir es
            | Some c \<Rightarrow> Dir (AList.update x (put_at xs new c) es)))"

fun remove_at :: "path \<Rightarrow> node \<Rightarrow> node" where
  "remove_at [] n = n"
| "remove_at (x # xs) (File c) = File c"
| "remove_at (x # xs) (Dir es) =
     (if xs = [] then Dir (AList.delete x es)
      else (case map_of es x of
              None \<Rightarrow> Dir es
            | Some c \<Rightarrow> Dir (AList.update x (remove_at xs c) es)))"

text \<open>
  \<^verbatim>\<open>os.makedirs(name, exist_ok=...)\<close>: walks down from the root, creates every missing
  directory of the path, fails with NotADirectoryError under a file, and with
  FileExistsError when the path itself exists, unless \<^verbatim>\<open>exist_ok\<close> is set and it is a
  directory.
\<close>

fun new_chain :: "path \<Rightarrow> node" where
  "new_chain [] = Dir []"
| "new_chain (x # xs) = Dir [(x, new_chain xs)]"

fun mkdirs :: "bool \<Rightarrow> path \<Rightarrow> node \<Rightarrow> py_error + node" where
  "mkdirs exist_ok [] (Dir es) = (if exist_ok then Inr (Dir es) else Inl FileExistsError)"
| "mkdirs exist_ok [] (File c) = Inl FileExistsError"
| "mkdirs exist_ok (x # xs) (File c) = Inl NotADirectoryError"
| "mkdirs exist_ok (x # xs) (Dir es) =
     (case map_of es x of
        None \<Rightarrow> Inr (Dir (AList.update x (new_chain xs) es))
      | Some c \<Rightarrow>
          (case mkdirs exist_ok xs c of
             Inl e \<Rightarrow> Inl e
           | Inr c' \<Rightarrow> Inr (Dir (AList.update x c' es))))"

definition os_makedirs :: "bool \<Rightarrow> string \<Rightarrow> unit io" where
  "os_makedirs exist_ok name fs =
     (case mkdirs exist_ok (resolve name) fs of
        Inl e \<Rightarrow> (Inl e, fs)
      | Inr fs' \<Rightarrow> (Inr (), fs'))"

text \<open>
  \<^verbatim>\<open>shutil.rmtree(path, ignore_errors=...)\<close>: removes a directory with everything below
  it; a missing path or a file is an error, and the root directory can be emptied but
  not removed. With \<^verbatim>\<open>ignore_errors\<close> the error is dropped.
\<close>

definition rmtree :: "string \<Rightarrow> unit io" where
  "rmtree p fs =
     (case lookup fs (resolve p) of
        None \<Rightarrow> (Inl FileNotFoundError, fs)
      | Some (File c) \<Rightarrow> (Inl NotADirectoryError, fs)
      | Some (Dir es) \<Rightarrow>
          (if resolve p = [] then (Inl OSError, Dir [])
           else (Inr (), remove_at (resolve p) fs)))"

definition shutil_rmtree :: "bool \<Rightarrow> string \<Rightarrow> unit io" where
  "shutil_rmtree ignore_errors p fs =
     (case rmtree p fs of
        (Inl e, fs') \<Rightarrow> (if ignore_errors then (Inr (), fs') else (Inl e, fs'))
      | (Inr u, fs') \<Rightarrow> (Inr u, fs'))"

text \<open>
  \<^verbatim>\<open>open(path, "w")\<close> followed by one \<^verbatim>\<open>write\<close>: the parent must be a directory and the
  path must not be one; the file is created or truncated.
\<close>

definition write_text :: "string \<Rightarrow> string \<Rightarrow> unit io" where
  "write_text p txt fs =
     (let q = resolve p in
      if q = [] then (Inl IsADirectoryError, fs)
      else (case lookup fs (butlast q) of
              None \<Rightarrow> (Inl FileNotFoundError, fs)
            | Some (File c) \<Rightarrow> (Inl NotADirectoryError, fs)
            | Some (Dir es) \<Rightarrow>
                (if is_dir (lookup fs q) then (Inl IsADirectoryError, fs)
                 else (Inr (), put_at q (File (Plain txt)) fs))))"

text \<open>
  \<^verbatim>\<open>shutil.move(src, dst)\<close>. When \<^verbatim>\<open>dst\<close> is a directory the source is moved into it
  under its own base name, which must be free there; a source that is \<^verbatim>\<open>dst\<close> itself is
  renamed onto itself. The move is \<^verbatim>\<open>os.rename\<close>; where that fails, a directory is
  copied with \<^verbatim>\<open>copytree\<close> (which creates the missing parents of the destination) and
  removed, unless the destination lies inside it, and for a file the copy fails like the
  rename did.
\<close>

definition rename_or_copy :: "path \<Rightarrow> path \<Rightarrow> unit io" where
  "rename_or_copy s rd fs =
     (case lookup fs s of
        None \<Rightarrow> (Inl FileNotFoundError, fs)
      | Some n \<Rightarrow>
          (if s = rd then (Inr (), fs)
           else if prefix s rd then
             (case n of Dir es \<Rightarrow> (Inl ShutilError, fs) | File c \<Rightarrow> (Inl NotADirectoryError, fs))
           else if rd = [] then (Inl OSError, fs)
           else
             (case lookup fs (butlast rd) of
                Some (File c) \<Rightarrow> (Inl NotADirectoryError, fs)
              | Some (Dir es) \<Rightarrow>
                  (case lookup fs rd of
                     None \<Rightarrow> (Inr (), put_at rd n (remove_at s fs))
                   | Some (File c) \<Rightarrow>
                       (case n of
                          File c' \<Rightarrow> (Inr (), put_at rd n (remove_at s fs))
                        | Dir es' \<Rightarrow> (Inl FileExistsError, fs))
                   | Some (Dir es') \<Rightarrow> (Inl OSError, fs))
              | None \<Rightarrow>
                  (case n of
                     File c \<Rightarrow> (Inl FileNotFoundError, fs)
                   | Dir es \<Rightarrow>
                       (case mkdirs False rd fs of
                          Inl e \<Rightarrow> (Inl e, fs)
                        | Inr fs1 \<Rightarrow> (Inr (), remove_at s (put_at rd n fs1)))))))"

definition rstrip_sep :: "string \<Rightarrow> string" where
  "rstrip_sep p = rev (dropWhile (\<lambda>c. c = CHR ''/'') (rev p))"

definition shutil_move :: "string \<Rightarrow> string \<Rightarrow> unit io" where
  "shutil_move src dst fs =
     (if os_path_isdir fs dst then
        (if resolve src = resolve dst then (Inr (), fs)
         else
           (let real_dst = os_path_join dst (os_path_basename (rstrip_sep src)) in
            if os_path_exists fs real_dst then (Inl ShutilError, fs)
            else rename_or_copy (resolve src) (resolve real_dst) fs))
      else rename_or_copy (resolve src) (resolve dst) fs)"

subsection \<open>Archives\<close>

text \<open>
  Extracting the members of an archive into a directory: a member that is a file
  replaces a file of its name and fails on a directory of its name; a member that is a
  directory is merged into a directory of its name and fails on a file of its name;
  members are written in the archive's order, and what was written before a failure
  stays.
\<close>

fun merge_node :: "node \<Rightarrow> node \<Rightarrow> (py_error + unit) \<times> node"
  and merge_entries ::
    "(string \<times> node) list \<Rightarrow> (string \<times> node) list \<Rightarrow> (py_error + unit) \<times> (string \<times> node) list"
where
  "merge_node (File c) (File d) = (Inr (), File d)"
| "merge_node (Dir es) (File d) = (Inl IsADirectoryError, Dir es)"
| "merge_node (File c) (Dir ms) = (Inl FileExistsError, File c)"
| "merge_node (Dir es) (Dir ms) = (case merge_entries es ms of (r, es') \<Rightarrow> (r, Dir es'))"
| "merge_entries es [] = (Inr (), es)"
| "merge_entries es (m # ms) =
     (case map_of es (fst m) of
        None \<Rightarrow> merge_entries (AList.update (fst m) (snd m) es) ms
      | Some old \<Rightarrow>
          (case merge_node old (snd m) of
             (Inl e, old') \<Rightarrow> (Inl e, AList.update (fst m) old' es)
           | (Inr u, new) \<Rightarrow> merge_entries (AList.update (fst m) new es) ms))"

definition extractall :: "(string \<times> node) list \<Rightarrow> string \<Rightarrow> unit io" where
  "extractall members dest fs =
     (if members = [] then (Inr (), fs)
      else if is_file (lookup fs (resolve dest)) then (Inl NotADirectoryError, fs)
      else
        (case mkdirs True (resolve dest) fs of
           Inl e \<Rightarrow> (Inl e, fs)
         | Inr fs1 \<Rightarrow>
             (case lookup fs1 (resolve dest) of
                Some (Dir es) \<Rightarrow>
                  (case merge_entries es members of
                     (r, es') \<Rightarrow> (r, put_at (resolve dest) (Dir es') fs1))
              | _ \<Rightarrow> (Inl NotADirectoryError, fs1))))"

text \<open>
  \<^verbatim>\<open>with zipfile.ZipFile(archive_path) as zf: zf.extractall(dest_dir)\<close> and
  \<^verbatim>\<open>with tarfile.open(archive_path, "r:gz") as tf: tf.extractall(dest_dir)\<close>: opening
  fails on a missing path, on a directory, and on a file that is not such a container.
\<close>

definition zip_extractall :: "string \<Rightarrow> string \<Rightarrow> unit io" where
  "zip_extractall archive_path dest_dir fs =
     (case lookup fs (resolve archive_path) of
        None \<Rightarrow> (Inl FileNotFoundError, fs)
      | Some (Dir es) \<Rightarrow> (Inl IsADirectoryError, fs)
      | Some (File (ZipData members)) \<Rightarrow> extractall members dest_dir fs
      | Some (File _) \<Rightarrow> (Inl BadZipFile, fs))"

definition tar_extractall :: "string \<Rightarrow> string \<Rightarrow> unit io" where
  "tar_extractall archive_path dest_dir fs =
     (case lookup fs (resolve archive_path) of
        None \<Rightarrow> (Inl FileNotFoundError, fs)
      | Some (Dir es) \<Rightarrow> (Inl IsADirectoryError, fs)
      | Some (File (TarGzData members)) \<Rightarrow> extractall members dest_dir fs
      | Some (File _) \<Rightarrow> (Inl ReadError, fs))"

text \<open>\<^verbatim>\<open>_extract_archive\<close> (lines 57 to 69).\<close>

definition extract_archive :: "string \<Rightarrow> string \<Rightarrow> bool io" where
  "extract_archive archive_path dest_dir fs =
     (case os_makedirs True dest_dir fs of
        (Inl e, fs1) \<Rightarrow> (Inl e, fs1)
      | (Inr u, fs1) \<Rightarrow>
          (let low = py_lower archive_path in
           if endswith low ''.zip'' then
             (case zip_extractall archive_path dest_dir fs1 of
                (Inl e, fs2) \<Rightarrow> (Inl e, fs2)
              | (Inr u, fs2) \<Rightarrow> (Inr True, fs2))
           else if endswith low ''.tar.gz'' \<or> endswith low ''.tgz'' then
             (case tar_extractall archive_path dest_dir fs1 of
                (Inl e, fs2) \<Rightarrow> (Inl e, fs2)
              | (Inr u, fs2) \<Rightarrow> (Inr True, fs2))
           else (Inr False, fs1)))"

subsection \<open>Globbing\<close>

text \<open>
  \<^verbatim>\<open>glob.glob\<close> lists a directory in the order of the operating system (the order of the
  association list; it does not sort), and its wildcards never match a name that begins
  with a dot. The root of a pattern is taken literally: it is assumed free of the
  characters \<^verbatim>\<open>*\<close>, \<^verbatim>\<open>?\<close> and \<^verbatim>\<open>[\<close>.
\<close>

definition ishidden :: "string \<Rightarrow> bool" where
  "ishidden name = (name \<noteq> [] \<and> hd name = CHR ''.'')"

text \<open>
  The directories that \<^verbatim>\<open>**\<close> matches below a directory, itself first and then each
  visible subdirectory with its own subdirectories, each with its path and entries.
\<close>

fun walk_dirs :: "string \<Rightarrow> node \<Rightarrow> (string \<times> (string \<times> node) list) list" where
  "walk_dirs d (File c) = []"
| "walk_dirs d (Dir es) =
     (d, es) #
     concat (map (\<lambda>e. if ishidden (fst e) then [] else walk_dirs (os_path_join d (fst e)) (snd e)) es)"

text \<open>
  \<^verbatim>\<open>glob.glob(os.path.join(root, "**/*" + ext), recursive=True)\<close>: in each of these
  directories, the visible entries (files or directories) whose name ends in \<^verbatim>\<open>ext\<close>.
\<close>

definition glob_recursive :: "node \<Rightarrow> string \<Rightarrow> string \<Rightarrow> string list" where
  "glob_recursive fs root ext =
     (case lookup fs (resolve root) of
        Some (Dir es) \<Rightarrow>
          concat (map (\<lambda>(d, ds).
                    map (\<lambda>e. os_path_join d (fst e))
                      (filter (\<lambda>e. \<not> ishidden (fst e) \<and> endswith (fst e) ext) ds))
                  (walk_dirs root (Dir es)))
      | _ \<Rightarrow> [])"

text \<open>
  \<^verbatim>\<open>glob.glob(os.path.join(root, "*", name))\<close>: for each visible subdirectory of the
  root, in listing order, the path of its entry of that name, when it has one (a file or a
  directory).
\<close>

definition glob_one_below :: "node \<Rightarrow> string \<Rightarrow> string \<Rightarrow> string list" where
  "glob_one_below fs root name =
     (case lookup fs (resolve root) of
        Some (Dir es) \<Rightarrow>
          map (\<lambda>e. os_path_join (os_path_join root (fst e)) name)
            (filter (\<lambda>e. \<not> ishidden (fst e) \<and> is_dir (Some (snd e)) \<and> lookup (snd e) [name] \<noteq> None) es)
      | _ \<Rightarrow> [])"

text \<open>\<^verbatim>\<open>_find_archives_recursively\<close> (lines 88 to 94).\<close>

definition find_archives_recursively :: "node \<Rightarrow> string \<Rightarrow> string list" where
  "find_archives_recursively fs root =
     concat (map (\<lambda>ext. glob_recursive fs root ext) [''.zip'', ''.tar.gz'', ''.tgz''])"

subsection \<open>The metadata reader\<close>

text \<open>Decimal digits of a number, for \<^verbatim>\<open>str\<close> of an integer.\<close>

fun str_nat :: "nat \<Rightarrow> string" where
  "str_nat n =
     (if n < 10 then [''0123456789'' ! n]
      else str_nat (n div 10) @ [''0123456789'' ! (n mod 10)])"

declare str_nat.simps [simp del]

definition py_str :: "jvalue \<Rightarrow> string" where
  "py_str v =
     (case v of
        JNull \<Rightarrow> ''None''
      | JBool b \<Rightarrow> (if b then ''True'' else ''False'')
      | JInt i \<Rightarrow> (if i < 0 then CHR ''-'' # str_nat (nat (- i)) else str_nat (nat i))
      | JStr s \<Rightarrow> s
      | JOther s \<Rightarrow> s)"

text \<open>
  The body of the \<^verbatim>\<open>try\<close> of \<^verbatim>\<open>_read_api_version\<close> (lines 81 to 84): opening the file,
  \<^verbatim>\<open>json.load\<close>, \<^verbatim>\<open>data.get("apiVersion")\<close> (None for a missing key and for a JSON null)
  and \<^verbatim>\<open>str\<close>. A file that is not a JSON object raises in \<^verbatim>\<open>json.load\<close>, or in
  \<^verbatim>\<open>data.get\<close> when it is JSON of another kind.
\<close>

definition load_api_version :: "node \<Rightarrow> string \<Rightarrow> py_error + string option" where
  "load_api_version fs pkg =
     (case lookup fs (resolve pkg) of
        None \<Rightarrow> Inl FileNotFoundError
      | Some (Dir es) \<Rightarrow> Inl IsADirectoryError
      | Some (File (JsonObject data)) \<Rightarrow>
          (let v = (case map_of data ''apiVersion'' of None \<Rightarrow> JNull | Some x \<Rightarrow> x) in
           if v \<noteq> JNull then Inr (Some (py_str v)) else Inr None)
      | Some (File _) \<Rightarrow> Inl JSONDecodeError)"

text \<open>
  Lines 73 to 79 of \<^verbatim>\<open>_read_api_version\<close>: the metadata file the reader settles on, if
  any.
\<close>

definition find_pkg :: "node \<Rightarrow> string \<Rightarrow> string option" where
  "find_pkg fs component_root =
     (let pkg = os_path_join component_root ''oh-uni-package.json'' in
      if \<not> os_path_isfile fs pkg then
        (case glob_one_below fs component_root ''oh-uni-package.json'' of
           [] \<Rightarrow> None
         | c # cs \<Rightarrow> Some c)
      else Some pkg)"

text \<open>\<^verbatim>\<open>_read_api_version\<close> (lines 71 to 86); \<^verbatim>\<open>except Exception\<close> catches every error.\<close>

definition read_api_version :: "node \<Rightarrow> string \<Rightarrow> string option" where
  "read_api_version fs component_root =
     (case find_pkg fs component_root of
        None \<Rightarrow> None
      | Some pkg \<Rightarrow>
          (case load_api_version fs pkg of
             Inl e \<Rightarrow> None
           | Inr r \<Rightarrow> r))"

subsection \<open>The bootstrapper\<close>

record config =
  platform :: string
  toolchain_prefix :: string

text \<open>\<^verbatim>\<open>x or "unknown"\<close>: None and the empty string are both false.\<close>

definition or_unknown :: "string option \<Rightarrow> string" where
  "or_unknown r = (case r of None \<Rightarrow> ''unknown'' | Some v \<Rightarrow> (if v = [] then ''unknown'' else v))"

text \<open>Lines 150 to 155 of \<^verbatim>\<open>start\<close>: the target directory is replaced and the component moved.\<close>

definition relocate :: "string \<Rightarrow> string \<Rightarrow> string \<Rightarrow> unit io" where
  "relocate pfx source_dir api_version fs =
     (let target_dir = os_path_join pfx api_version in
      case (if os_path_exists fs target_dir then shutil_rmtree False target_dir fs else (Inr (), fs)) of
        (Inl e, fs1) \<Rightarrow> (Inl e, fs1)
      | (Inr u, fs1) \<Rightarrow>
          (case os_makedirs False target_dir fs1 of
             (Inl e, fs2) \<Rightarrow> (Inl e, fs2)
           | (Inr u, fs2) \<Rightarrow> shutil_move source_dir target_dir fs2))"

text \<open>The body of the loop of \<^verbatim>\<open>start\<close> (lines 139 to 155) for one archive.\<close>

definition process_archive :: "string \<Rightarrow> string \<Rightarrow> string \<Rightarrow> unit io" where
  "process_archive pfx platform_dir archive fs =
     (case comp_of archive of
        Inl e \<Rightarrow> (Inl e, fs)
      | Inr component \<Rightarrow>
          (case extract_archive archive platform_dir fs of
             (Inl e, fs1) \<Rightarrow> (Inl e, fs1)
           | (Inr False, fs1) \<Rightarrow> (Inr (), fs1)
           | (Inr True, fs1) \<Rightarrow>
               (let source_dir = os_path_join platform_dir component;
                    api_version = or_unknown (read_api_version fs1 source_dir)
                in relocate pfx source_dir api_version fs1)))"

text \<open>The loop: an exception ends it.\<close>

fun process_archives :: "string \<Rightarrow> string \<Rightarrow> string list \<Rightarrow> unit io" where
  "process_archives pfx platform_dir [] fs = (Inr (), fs)"
| "process_archives pfx platform_dir (a # as) fs =
     (case process_archive pfx platform_dir a fs of
        (Inl e, fs1) \<Rightarrow> (Inl e, fs1)
      | (Inr u, fs1) \<Rightarrow> process_archives pfx platform_dir as fs1)"

text \<open>
  The comprehension of line 136, \<^verbatim>\<open>[a for a in all_archives if _comp_of(a) in
  WANTED_COMPONENTS]\<close>.
\<close>

fun wanted_archives :: "string list \<Rightarrow> py_error + string list" where
  "wanted_archives [] = Inr []"
| "wanted_archives (a # as) =
     (case comp_of a of
        Inl e \<Rightarrow> Inl e
      | Inr component \<Rightarrow>
          (case wanted_archives as of
             Inl e \<Rightarrow> Inl e
           | Inr rest \<Rightarrow> Inr (if component \<in> set WANTED_COMPONENTS then a # rest else rest)))"

text \<open>
  \<^verbatim>\<open>OpenHarmonyBootstrapper.start\<close> (lines 109 to 157). The prefix \<open>pfx\<close> is
  \<^verbatim>\<open>config.toolchain_prefix\<close>; what the method prints is not part of the model.
\<close>

definition write_marker :: "string \<Rightarrow> node \<Rightarrow> node" where
  "write_marker pfx fs =
     (case write_text (os_path_join pfx ''.ohos-sdk-version'') (SDK_VERSION @ [CHR 0x0A]) fs of
        (Inl e, fs') \<Rightarrow> fs'
      | (Inr u, fs') \<Rightarrow> fs')"

text \<open>Lines 110 and 111: the prefix is created when nothing exists at its path.\<close>

definition ensure_prefix :: "string \<Rightarrow> unit io" where
  "ensure_prefix pfx fs =
     (if \<not> os_path_exists fs pfx then os_makedirs False pfx fs else (Inr (), fs))"

text \<open>The locals \<^verbatim>\<open>sdk_dir\<close> (line 120) and \<^verbatim>\<open>platform_dir\<close> (lines 125 and 126).\<close>

definition sdk_dir_of :: "config \<Rightarrow> string" where
  "sdk_dir_of cfg = os_path_join (toolchain_prefix cfg) ''ohos-sdk''"

definition platform_dir_of :: "config \<Rightarrow> string" where
  "platform_dir_of cfg = os_path_join (sdk_dir_of cfg) (platform_dir_name (platform cfg))"

definition start :: "config \<Rightarrow> unit io" where
  "start cfg fs =
     (let pfx = toolchain_prefix cfg in
      case ensure_prefix pfx fs of
        (Inl e, fs1) \<Rightarrow> (Inl e, fs1)
      | (Inr u, fs1) \<Rightarrow>
          (let fs2 = write_marker pfx fs1;
               sdk_dir = sdk_dir_of cfg
           in if \<not> os_path_isdir fs2 sdk_dir then (Inr (), fs2)
              else
                (let platform_dir = platform_dir_of cfg;
                     all_archives = find_archives_recursively fs2 platform_dir
                 in case wanted_archives all_archives of
                      Inl e \<Rightarrow> (Inl e, fs2)
                    | Inr archives \<Rightarrow>
                        (case process_archives pfx platform_dir archives fs2 of
                           (Inl e, fs3) \<Rightarrow> (Inl e, fs3)
                         | (Inr u, fs3) \<Rightarrow> shutil_rmtree True sdk_dir fs3))))"

subsection \<open>Concrete file systems for the examples\<close>


text \<open>A component root whose metadata file is \<^verbatim>\<open>{"apiVersion": null}\<close>, and one with the number 12.\<close>

definition fs_null_version :: node where
  "fs_null_version =
     Dir [(''c'', Dir [(''oh-uni-package.json'', File (JsonObject [(''apiVersion'', JNull)]))])]"

definition fs_int_version :: node where
  "fs_int_version =
     Dir [(''c'', Dir [(''oh-uni-package.json'',
        File (JsonObject [(''name'', JStr ''native''), (''apiVersion'', JInt 12)]))])]"


subsection \<open>Well-formed directories\<close>


text \<open>
  A name that is a single path component: not empty, without a slash, and neither
  \<^verbatim>\<open>.\<close> nor \<^verbatim>\<open>..\<close>.
\<close>

definition plain_name :: "string \<Rightarrow> bool" where
  "plain_name c = (c \<noteq> [] \<and> CHR ''/'' \<notin> set c \<and> c \<noteq> ''.'' \<and> c \<noteq> ''..'')"

subsection \<open>Concrete runs for the examples\<close>

definition cfg_linux :: config where
  "cfg_linux = \<lparr>platform = ''linux'', toolchain_prefix = ''/p''\<rparr>"




text \<open>
  The scenario of the specification: \<^verbatim>\<open>native-pkg.tar.gz\<close> holds \<^verbatim>\<open>native\<close> with its
  metadata, version 12; \<^verbatim>\<open>random-extra.zip\<close> is not wanted; \<^verbatim>\<open>/p/12\<close> holds an older tree.
\<close>

definition fs_scenario :: node where
  "fs_scenario =
     Dir [(''p'', Dir [
       (''ohos-sdk'', Dir [(''linux'', Dir [
          (''native-pkg.tar.gz'', File (TarGzData [(''native'', Dir [
              (''oh-uni-package.json'', File (JsonObject [(''apiVersion'', JStr ''12'')])),
              (''lib'', File (Plain ''new''))])])),
          (''random-extra.zip'', File (ZipData [(''random'', Dir [])]))])]),
       (''12'', Dir [(''native'', Dir [(''stale'', File (Plain ''old''))])])])]"

text \<open>
  A staging directory whose archive \<^verbatim>\<open>native.zip\<close> declares, as its version, the path of its
  own working directory below the prefix.
\<close>

definition fs_version_is_workdir :: node where
  "fs_version_is_workdir =
     Dir [(''p'', Dir [(''ohos-sdk'', Dir [(''linux'', Dir [
       (''native.zip'', File (ZipData [(''native'', Dir [
          (''oh-uni-package.json'',
             File (JsonObject [(''apiVersion'', JStr ''ohos-sdk/linux/native'')])),
          (''lib'', File (Plain ''new''))])]))])])])]"

subsection \<open>The invariant of a run\<close>


section \<open>Properties\<close>

subsection \<open>Strings\<close>

lemma py_split_first:
  "\<exists>ws. py_split sep s = takeWhile (\<lambda>c. c \<noteq> sep) s # ws"
proof (induction s)
  case Nil
  show ?case by simp
next
  case (Cons c cs)
  then obtain ws where "py_split sep cs = takeWhile (\<lambda>c. c \<noteq> sep) cs # ws"
    by blast
  then show ?case by simp
qed

lemma py_index0_split:
  "py_index0 (py_split sep s) = Inr (takeWhile (\<lambda>c. c \<noteq> sep) s)"
proof -
  obtain ws where "py_split sep s = takeWhile (\<lambda>c. c \<noteq> sep) s # ws"
    using py_split_first by blast
  then show ?thesis by (simp add: py_index0_def)
qed

lemma takeWhile_twice:
  "takeWhile P (takeWhile Q xs) = takeWhile (\<lambda>x. Q x \<and> P x) xs"
  by (induction xs) simp_all

lemma comp_of_takeWhile:
  "comp_of path =
     Inr (takeWhile (\<lambda>c. c \<noteq> CHR ''-'' \<and> c \<noteq> CHR ''_'')
            (takeWhile (\<lambda>c. c \<noteq> CHR ''.'') (os_path_basename path)))"
  by (simp add: comp_of_def py_index0_split takeWhile_twice)

lemma os_path_basename_name:
  "CHR ''/'' \<notin> set name \<Longrightarrow> os_path_basename name = name"
  unfolding os_path_basename_def
  by (subst takeWhile_eq_all_conv[THEN iffD2]) auto

lemma endswith_suffix: "endswith s t \<longleftrightarrow> suffix t s"
proof
  assume "endswith s t"
  then have "drop (length s - length t) s = t" by (simp add: endswith_def)
  then have "s = take (length s - length t) s @ t"
    by (metis append_take_drop_id)
  then show "suffix t s" by (metis suffixI)
next
  assume "suffix t s"
  then obtain u where "s = u @ t" by (auto simp: suffix_def)
  then show "endswith s t" by (simp add: endswith_def)
qed

lemma py_lower_ext:
  "py_lower ''.zip'' = ''.zip''" "py_lower ''.tar.gz'' = ''.tar.gz''" "py_lower ''.tgz'' = ''.tgz''"
  by (simp_all add: py_lower_def lower_char_def)

lemma endswith_py_lower:
  "endswith a ext \<Longrightarrow> py_lower ext = ext \<Longrightarrow> endswith (py_lower a) ext"
  unfolding endswith_suffix py_lower_def
  by (metis map_mono_suffix)

lemma endswith_os_path_join:
  "endswith n ext \<Longrightarrow> endswith (os_path_join d n) ext"
  unfolding endswith_suffix os_path_join_def
  by (auto simp: suffix_def)

subsection \<open>The component classifier\<close>

text \<open>
  Claim C2. For every file name (a string without a slash), \<^verbatim>\<open>_comp_of\<close> returns, without
  raising, what precedes the first \<^verbatim>\<open>.\<close> of the name, cut before the first \<^verbatim>\<open>-\<close> or \<^verbatim>\<open>_\<close> of
  that part (so all of that part when it has neither); a name that begins with a dot
  gives the empty string; and the three names of the specification give \<^verbatim>\<open>native\<close>,
  \<^verbatim>\<open>js\<close> and \<^verbatim>\<open>previewer\<close>.
\<close>

theorem comp_of_token:
  assumes "CHR ''/'' \<notin> set name"
  shows "comp_of name =
           Inr (takeWhile (\<lambda>c. c \<noteq> CHR ''-'' \<and> c \<noteq> CHR ''_'')
                  (takeWhile (\<lambda>c. c \<noteq> CHR ''.'') name))
         \<and> comp_of (CHR ''.'' # name) = Inr []
         \<and> comp_of ''native-api12.tar.gz'' = Inr ''native''
         \<and> comp_of ''js_sdk.zip'' = Inr ''js''
         \<and> comp_of ''previewer.tgz'' = Inr ''previewer''"
proof -
  have "os_path_basename name = name"
    using assms by (rule os_path_basename_name)
  moreover have "os_path_basename (CHR ''.'' # name) = CHR ''.'' # name"
    using assms by (intro os_path_basename_name) simp
  moreover have "os_path_basename ''native-api12.tar.gz'' = ''native-api12.tar.gz''"
    "os_path_basename ''js_sdk.zip'' = ''js_sdk.zip''"
    "os_path_basename ''previewer.tgz'' = ''previewer.tgz''"
    by (simp_all add: os_path_basename_def)
  ultimately show ?thesis
    by (simp add: comp_of_takeWhile)
qed

theorem comp_of_token_witness:
  "CHR ''/'' \<notin> set ''toolchains-4.1_x.tar.gz''
   \<and> comp_of ''toolchains-4.1_x.tar.gz'' = Inr ''toolchains''
   \<and> comp_of ''.toolchains-4.1_x.tar.gz'' = Inr []"
proof -
  have h: "CHR ''/'' \<notin> set ''toolchains-4.1_x.tar.gz''" by simp
  show ?thesis using h comp_of_token [OF h] by simp
qed

subsection \<open>The archive locator and the extractor's formats\<close>

lemma glob_recursive_endswith:
  "a \<in> set (glob_recursive fs root ext) \<Longrightarrow> endswith a ext"
  unfolding glob_recursive_def
  by (auto split: option.splits node.splits simp: endswith_os_path_join)

lemma find_archives_endswith:
  "a \<in> set (find_archives_recursively fs root) \<Longrightarrow>
     endswith a ''.zip'' \<or> endswith a ''.tar.gz'' \<or> endswith a ''.tgz''"
  unfolding find_archives_recursively_def
  by (auto dest: glob_recursive_endswith)

lemma extract_archive_recognized:
  "endswith (py_lower a) ''.zip'' \<or> endswith (py_lower a) ''.tar.gz'' \<or> endswith (py_lower a) ''.tgz'' \<Longrightarrow>
     fst (extract_archive a dest fs) \<noteq> Inr False"
  unfolding extract_archive_def
  by (auto simp: Let_def split: prod.splits sum.splits)

text \<open>
  Claim C10. Every path that \<^verbatim>\<open>_find_archives_recursively\<close> returns ends, as written, in
  \<^verbatim>\<open>.zip\<close>, \<^verbatim>\<open>.tar.gz\<close> or \<^verbatim>\<open>.tgz\<close>; so \<^verbatim>\<open>_extract_archive\<close>, called on it with any destination
  and in any state of the file system, never returns False: the branch of \<^verbatim>\<open>start\<close> that skips
  an archive of unknown format is not taken for an archive that the locator produced. The
  extractor returns False, once the destination exists, exactly for the paths that end in
  none of the three, compared in lower case.
\<close>

theorem located_archive_never_unrecognized:
  assumes "a \<in> set (find_archives_recursively fs root)"
  shows "(endswith a ''.zip'' \<or> endswith a ''.tar.gz'' \<or> endswith a ''.tgz'')
         \<and> (\<forall>dest fs'. fst (extract_archive a dest fs') \<noteq> Inr False)
         \<and> (\<forall>b dest fs' fs1. os_makedirs True dest fs' = (Inr (), fs1) \<longrightarrow>
               (fst (extract_archive b dest fs') = Inr False \<longleftrightarrow>
                  \<not> endswith (py_lower b) ''.zip'' \<and> \<not> endswith (py_lower b) ''.tar.gz''
                  \<and> \<not> endswith (py_lower b) ''.tgz''))"
proof -
  have exact: "\<forall>b dest fs' fs1. os_makedirs True dest fs' = (Inr (), fs1) \<longrightarrow>
               (fst (extract_archive b dest fs') = Inr False \<longleftrightarrow>
                  \<not> endswith (py_lower b) ''.zip'' \<and> \<not> endswith (py_lower b) ''.tar.gz''
                  \<and> \<not> endswith (py_lower b) ''.tgz'')"
    by (auto simp: extract_archive_def Let_def split: prod.splits sum.splits)
  have ends: "endswith a ''.zip'' \<or> endswith a ''.tar.gz'' \<or> endswith a ''.tgz''"
    using assms by (rule find_archives_endswith)
  then have "endswith (py_lower a) ''.zip'' \<or> endswith (py_lower a) ''.tar.gz''
             \<or> endswith (py_lower a) ''.tgz''"
    using endswith_py_lower py_lower_ext by blast
  then have "\<forall>dest fs'. fst (extract_archive a dest fs') \<noteq> Inr False"
    using extract_archive_recognized by blast
  with ends exact show ?thesis by blast
qed

theorem located_archive_never_unrecognized_witness:
  "''/r/d/a.tgz'' \<in> set (find_archives_recursively
       (Dir [(''r'', Dir [(''d'', Dir [(''a.tgz'', File (Plain ''''))])])]) ''/r'')
   \<and> fst (extract_archive ''/r/d/a.tgz'' ''/r''
        (Dir [(''r'', Dir [(''d'', Dir [(''a.tgz'', File (Plain ''''))])])])) \<noteq> Inr False"
proof -
  have h: "''/r/d/a.tgz'' \<in> set (find_archives_recursively
       (Dir [(''r'', Dir [(''d'', Dir [(''a.tgz'', File (Plain ''''))])])]) ''/r'')"
    by code_simp
  show ?thesis using h located_archive_never_unrecognized [OF h] by blast
qed

subsection \<open>The archive extractor\<close>




subsection \<open>The metadata reader\<close>





text \<open>
  Claim C6, as amended. \<^verbatim>\<open>_read_api_version\<close> never raises: it returns None when no metadata
  file is found (none in the root and none one level below), when the file it settles on
  cannot be read as a JSON object (a directory, other bytes, JSON of another kind), and
  when the object has no \<^verbatim>\<open>apiVersion\<close> key or has it with the value null; \<^verbatim>\<open>start\<close> then uses
  \<^verbatim>\<open>unknown\<close> as the version. When the object has a value other than null under the key,
  the reader returns \<^verbatim>\<open>str\<close> of it.
\<close>

theorem read_api_version_outcomes:
  "(find_pkg fs root = None \<longrightarrow> read_api_version fs root = None)
   \<and> (\<forall>pkg. find_pkg fs root = Some pkg
          \<and> (\<forall>data. lookup fs (resolve pkg) \<noteq> Some (File (JsonObject data)))
        \<longrightarrow> read_api_version fs root = None)
   \<and> (\<forall>pkg data. find_pkg fs root = Some pkg
          \<and> lookup fs (resolve pkg) = Some (File (JsonObject data))
          \<and> (map_of data ''apiVersion'' = None \<or> map_of data ''apiVersion'' = Some JNull)
        \<longrightarrow> read_api_version fs root = None)
   \<and> (\<forall>pkg data v. find_pkg fs root = Some pkg
          \<and> lookup fs (resolve pkg) = Some (File (JsonObject data))
          \<and> map_of data ''apiVersion'' = Some v \<and> v \<noteq> JNull
        \<longrightarrow> read_api_version fs root = Some (py_str v))
   \<and> (find_pkg fs root = None \<longleftrightarrow>
         \<not> os_path_isfile fs (os_path_join root ''oh-uni-package.json'')
         \<and> glob_one_below fs root ''oh-uni-package.json'' = [])
   \<and> (read_api_version fs root = None \<longrightarrow> or_unknown (read_api_version fs root) = ''unknown'')
   \<and> (\<forall>pfx a token fs0. comp_of a = Inr token \<and> extract_archive a root fs0 = (Inr True, fs)
          \<and> read_api_version fs (os_path_join root token) = None
        \<longrightarrow> process_archive pfx root a fs0 = relocate pfx (os_path_join root token) ''unknown'' fs)"
proof -
  have 1: "find_pkg fs root = None \<longrightarrow> read_api_version fs root = None"
    by (simp add: read_api_version_def)
  have 2: "\<forall>pkg. find_pkg fs root = Some pkg
          \<and> (\<forall>data. lookup fs (resolve pkg) \<noteq> Some (File (JsonObject data)))
        \<longrightarrow> read_api_version fs root = None"
    by (auto simp: read_api_version_def load_api_version_def
             split: option.splits node.splits content.splits sum.splits)
  have 3: "\<forall>pkg data. find_pkg fs root = Some pkg
          \<and> lookup fs (resolve pkg) = Some (File (JsonObject data))
          \<and> (map_of data ''apiVersion'' = None \<or> map_of data ''apiVersion'' = Some JNull)
        \<longrightarrow> read_api_version fs root = None"
    by (auto simp: read_api_version_def load_api_version_def)
  have 4: "\<forall>pkg data v. find_pkg fs root = Some pkg
          \<and> lookup fs (resolve pkg) = Some (File (JsonObject data))
          \<and> map_of data ''apiVersion'' = Some v \<and> v \<noteq> JNull
        \<longrightarrow> read_api_version fs root = Some (py_str v)"
    by (auto simp: read_api_version_def load_api_version_def)
  have 5: "find_pkg fs root = None \<longleftrightarrow>
         \<not> os_path_isfile fs (os_path_join root ''oh-uni-package.json'')
         \<and> glob_one_below fs root ''oh-uni-package.json'' = []"
    by (auto simp: find_pkg_def Let_def split: list.splits)
  have 6: "read_api_version fs root = None \<longrightarrow> or_unknown (read_api_version fs root) = ''unknown''"
    by (simp add: or_unknown_def)
  have 7: "\<forall>pfx a token fs0. comp_of a = Inr token \<and> extract_archive a root fs0 = (Inr True, fs)
          \<and> read_api_version fs (os_path_join root token) = None
        \<longrightarrow> process_archive pfx root a fs0 = relocate pfx (os_path_join root token) ''unknown'' fs"
    by (simp add: process_archive_def or_unknown_def)
  from 1 2 3 4 5 6 7 show ?thesis by blast
qed

theorem read_api_version_outcomes_witness:
  "find_pkg fs_int_version ''/c'' = Some ''/c/oh-uni-package.json''
   \<and> lookup fs_int_version (resolve ''/c/oh-uni-package.json'')
        = Some (File (JsonObject [(''name'', JStr ''native''), (''apiVersion'', JInt 12)]))
   \<and> map_of [(''name'', JStr ''native''), (''apiVersion'', JInt 12)] ''apiVersion'' = Some (JInt 12)
   \<and> JInt 12 \<noteq> JNull
   \<and> read_api_version fs_int_version ''/c'' = Some ''12''"
proof -
  have h: "find_pkg fs_int_version ''/c'' = Some ''/c/oh-uni-package.json''"
    "lookup fs_int_version (resolve ''/c/oh-uni-package.json'')
        = Some (File (JsonObject [(''name'', JStr ''native''), (''apiVersion'', JInt 12)]))"
    "map_of [(''name'', JStr ''native''), (''apiVersion'', JInt 12)] ''apiVersion'' = Some (JInt 12)"
    "JInt 12 \<noteq> JNull"
    by code_simp+
  have s: "py_str (JInt 12) = ''12''" by code_simp
  show ?thesis
    using h s read_api_version_outcomes [of fs_int_version "''/c''"] by metis
qed

text \<open>
  The claim as stated fails on \<^verbatim>\<open>{"apiVersion": null}\<close>: the file is valid and has the
  field, and the reader returns None, not the field coerced to a string.
\<close>

theorem read_api_version_null_field:
  "find_pkg fs_null_version ''/c'' = Some ''/c/oh-uni-package.json''
   \<and> lookup fs_null_version (resolve ''/c/oh-uni-package.json'')
        = Some (File (JsonObject [(''apiVersion'', JNull)]))
   \<and> map_of [(''apiVersion'', JNull)] ''apiVersion'' = Some JNull
   \<and> read_api_version fs_null_version ''/c'' = None
   \<and> read_api_version fs_null_version ''/c'' \<noteq> Some (py_str JNull)"
  by code_simp

subsection \<open>The archive locator\<close>

lemma lookup_append:
  "lookup n (ps @ qs) = (case lookup n ps of None \<Rightarrow> None | Some m \<Rightarrow> lookup m qs)"
proof (induction ps arbitrary: n)
  case Nil
  show ?case by simp
next
  case (Cons p ps)
  show ?case by (cases n) (simp_all add: Cons.IH split: option.splits)
qed








subsection \<open>Paths\<close>

lemma py_split_nonempty: "py_split sep s \<noteq> []"
  using py_split_first [of sep s] by auto

lemma py_split_append_sep:
  "py_split sep (a @ sep # c) = py_split sep a @ py_split sep c"
proof (induction a)
  case Nil
  show ?case by simp
next
  case (Cons x xs)
  obtain w ws where "py_split sep xs = w # ws"
    using py_split_nonempty [of sep xs] by (cases "py_split sep xs") auto
  with Cons show ?case by simp
qed

lemma py_split_no_sep: "sep \<notin> set c \<Longrightarrow> py_split sep c = [c]"
  by (induction c) auto

lemma resolve_append_sep:
  "CHR ''/'' \<notin> set c \<Longrightarrow> resolve (a @ CHR ''/'' # c) = resolve_step (resolve a) c"
  by (simp add: resolve_def py_split_append_sep py_split_no_sep)

lemma resolve_join_plain:
  assumes "plain_name c"
  shows "resolve (os_path_join a c) = resolve a @ [c]"
proof -
  have c: "c \<noteq> []" "CHR ''/'' \<notin> set c" "c \<noteq> ''.''" "c \<noteq> ''..''"
    using assms by (simp_all add: plain_name_def)
  then have hd: "hd c \<noteq> CHR ''/''" by (cases c) auto
  have step: "\<And>acc. resolve_step acc c = acc @ [c]"
    using c by (simp add: resolve_step_def)
  show ?thesis
  proof (cases "a = []")
    case True
    then show ?thesis
      using c hd by (simp add: os_path_join_def resolve_def py_split_no_sep resolve_step_def)
  next
    case False
    show ?thesis
    proof (cases "last a = CHR ''/''")
      case True
      with False obtain a0 where a0: "a = a0 @ [CHR ''/'']"
        by (metis append_butlast_last_id)
      have "resolve (a @ c) = resolve_step (resolve a0) c"
        using a0 resolve_append_sep [OF c(2), of a0] by simp
      moreover have "resolve a = resolve a0"
        using a0 resolve_append_sep [of "[]" a0] by (simp add: resolve_step_def)
      ultimately show ?thesis
        using True False hd c by (simp add: os_path_join_def step)
    next
      case nl: False
      then show ?thesis
        using False hd c resolve_append_sep [OF c(2), of a]
        by (simp add: os_path_join_def step)
    qed
  qed
qed

lemma lookup_remove_at_same: "p \<noteq> [] \<Longrightarrow> lookup (remove_at p n) p = None"
proof (induction p arbitrary: n)
  case Nil
  then show ?case by simp
next
  case (Cons x xs)
  show ?case
  proof (cases n)
    case (File c)
    then show ?thesis by simp
  next
    case (Dir es)
    show ?thesis
    proof (cases "xs = []")
      case True
      with Dir show ?thesis by (simp add: delete_conv')
    next
      case False
      with Dir Cons.IH show ?thesis
        by (simp add: update_conv' split: option.splits)
    qed
  qed
qed



subsection \<open>The run of the bootstrapper\<close>




lemma process_archives_append:
  "process_archives pfx pd (xs @ ys) fs =
     (case process_archives pfx pd xs fs of
        (Inl e, fs1) \<Rightarrow> (Inl e, fs1)
      | (Inr u, fs1) \<Rightarrow> process_archives pfx pd ys fs1)"
  by (induction xs arbitrary: fs) (auto split: prod.splits sum.splits)












subsection \<open>Frame properties of the file system operations\<close>

lemma is_dir_simps [simp]:
  "is_dir None = False" "is_dir (Some (Dir es)) = True" "is_dir (Some (File c)) = False"
  by (simp_all add: is_dir_def)

lemma lookup_File: "lookup (File c) q = (if q = [] then Some (File c) else None)"
  by (cases q) simp_all

lemma lookup_remove_at_parallel:
  "\<not> prefix p q \<Longrightarrow> \<not> prefix q p \<Longrightarrow> lookup (remove_at p n) q = lookup n q"
proof (induction p arbitrary: n q)
  case Nil
  then show ?case by simp
next
  case (Cons x xs)
  from Cons.prems obtain y ys where q: "q = y # ys" by (cases q) auto
  show ?case
  proof (cases n)
    case (File c)
    then show ?thesis by simp
  next
    case (Dir es)
    show ?thesis
    proof (cases "x = y")
      case False
      then show ?thesis
        using Dir q by (simp add: delete_conv' update_conv' split: option.splits)
    next
      case True
      with Cons.prems q have par: "\<not> prefix xs ys" "\<not> prefix ys xs" by simp_all
      then have "xs \<noteq> []" by auto
      then show ?thesis
        using Dir q True Cons.IH [OF par] by (simp add: update_conv' split: option.splits)
    qed
  qed
qed

lemma lookup_put_at_parallel:
  "\<not> prefix p q \<Longrightarrow> \<not> prefix q p \<Longrightarrow> lookup (put_at p new n) q = lookup n q"
proof (induction p arbitrary: n q)
  case Nil
  then show ?case by simp
next
  case (Cons x xs)
  from Cons.prems obtain y ys where q: "q = y # ys" by (cases q) auto
  show ?case
  proof (cases n)
    case (File c)
    then show ?thesis by simp
  next
    case (Dir es)
    show ?thesis
    proof (cases "x = y")
      case False
      then show ?thesis
        using Dir q by (simp add: update_conv' split: option.splits)
    next
      case True
      with Cons.prems q have par: "\<not> prefix xs ys" "\<not> prefix ys xs" by simp_all
      then have "xs \<noteq> []" by auto
      then show ?thesis
        using Dir q True Cons.IH [OF par] by (simp add: update_conv' split: option.splits)
    qed
  qed
qed

lemma lookup_new_chain: "lookup (new_chain p) p = Some (Dir [])"
  by (induction p) simp_all


lemma lookup_new_chain_None: "\<not> prefix q p \<Longrightarrow> lookup (new_chain p) q = None"
proof (induction p arbitrary: q)
  case Nil
  then show ?case by (cases q) simp_all
next
  case (Cons x xs)
  then show ?case by (cases q) auto
qed

lemma lookup_mkdirs_parallel:
  "mkdirs b p n = Inr n' \<Longrightarrow> \<not> prefix p q \<Longrightarrow> \<not> prefix q p \<Longrightarrow> lookup n' q = lookup n q"
proof (induction p arbitrary: n n' q)
  case Nil
  then show ?case by simp
next
  case (Cons x xs)
  from Cons.prems obtain y ys where q: "q = y # ys" by (cases q) auto
  show ?case
  proof (cases n)
    case (File c)
    with Cons.prems show ?thesis by simp
  next
    case (Dir es)
    show ?thesis
    proof (cases "map_of es x")
      case None
      with Dir Cons.prems(1) have n': "n' = Dir (AList.update x (new_chain xs) es)" by simp
      show ?thesis
      proof (cases "x = y")
        case False
        then show ?thesis using n' Dir q by (simp add: update_conv')
      next
        case True
        with Cons.prems q have "\<not> prefix ys xs" by simp
        then have "lookup (new_chain xs) ys = None" by (rule lookup_new_chain_None)
        then show ?thesis using n' Dir q True None by (simp add: update_conv')
      qed
    next
      case (Some c)
      with Dir Cons.prems(1) obtain c' where c': "mkdirs b xs c = Inr c'"
        "n' = Dir (AList.update x c' es)" by (auto split: sum.splits)
      show ?thesis
      proof (cases "x = y")
        case False
        then show ?thesis using c' Dir q by (simp add: update_conv')
      next
        case True
        with Cons.prems q have par: "\<not> prefix xs ys" "\<not> prefix ys xs" by simp_all
        show ?thesis
          using c' Dir q True Some Cons.IH [OF c'(1) par] by (simp add: update_conv')
      qed
    qed
  qed
qed

lemma lookup_put_at_above:
  "r \<noteq> [] \<Longrightarrow> lookup (put_at (q @ r) new n) q = map_option (put_at r new) (lookup n q)"
proof (induction q arbitrary: n)
  case Nil
  show ?case by simp
next
  case (Cons x xs)
  show ?case
  proof (cases n)
    case (File c)
    then show ?thesis by simp
  next
    case (Dir es)
    with Cons show ?thesis by (simp add: update_conv' split: option.splits)
  qed
qed








lemma lookup_prefix_None:
  "lookup n q = None \<Longrightarrow> prefix q r \<Longrightarrow> lookup n r = None"
  by (auto simp: prefix_def lookup_append)

lemma lookup_below_File:
  "lookup n q = Some (File c) \<Longrightarrow> strict_prefix q r \<Longrightarrow> lookup n r = None"
  by (auto simp: strict_prefix_def prefix_def lookup_append lookup_File split: if_splits)

lemma lookup_below_empty:
  "lookup n q = Some (Dir []) \<Longrightarrow> strict_prefix q r \<Longrightarrow> lookup n r = None"
proof -
  assume a: "lookup n q = Some (Dir [])" "strict_prefix q r"
  then obtain x xs where "r = q @ x # xs"
    by (metis append_Nil2 neq_Nil_conv prefix_def strict_prefix_def)
  with a show ?thesis by (simp add: lookup_append)
qed

lemma lookup_remove_at_below:
  "p \<noteq> [] \<Longrightarrow> prefix p q \<Longrightarrow> lookup (remove_at p n) q = None"
  using lookup_remove_at_same lookup_prefix_None by blast

lemma mkdirs_creates_empty:
  "mkdirs b p n = Inr n' \<Longrightarrow> lookup n p = None \<Longrightarrow> lookup n' p = Some (Dir [])"
proof (induction p arbitrary: n n')
  case Nil
  then show ?case by simp
next
  case (Cons x xs)
  show ?case
  proof (cases n)
    case (File c)
    with Cons.prems show ?thesis by simp
  next
    case (Dir es)
    show ?thesis
    proof (cases "map_of es x")
      case None
      with Dir Cons.prems(1) have "n' = Dir (AList.update x (new_chain xs) es)" by simp
      then show ?thesis by (simp add: update_conv' lookup_new_chain)
    next
      case (Some c)
      with Dir Cons.prems obtain c' where c': "mkdirs b xs c = Inr c'"
        "n' = Dir (AList.update x c' es)" "lookup c xs = None" by (auto split: sum.splits)
      then show ?thesis using Cons.IH [OF c'(1) c'(3)] by (simp add: update_conv')
    qed
  qed
qed

lemma mkdirs_not_under_file:
  "mkdirs b p n = Inr n' \<Longrightarrow> prefix q p \<Longrightarrow> lookup n q \<noteq> Some (File c)"
proof (induction p arbitrary: n n' q)
  case Nil
  then show ?case by (cases n) (auto split: if_splits)
next
  case (Cons x xs)
  show ?case
  proof (cases n)
    case (File c')
    with Cons.prems show ?thesis by simp
  next
    case (Dir es)
    show ?thesis
    proof (cases q)
      case Nil
      with Dir show ?thesis by simp
    next
      case q: (Cons y ys)
      with Cons.prems have y: "y = x" "prefix ys xs" by simp_all
      show ?thesis
      proof (cases "map_of es x")
        case None
        with Dir q y show ?thesis by simp
      next
        case (Some c0)
        with Dir Cons.prems(1) obtain c' where c': "mkdirs b xs c0 = Inr c'"
          by (auto split: sum.splits)
        then show ?thesis
          using q y Dir Some Cons.IH [OF c' y(2)] by simp
      qed
    qed
  qed
qed


subsection \<open>The relocation\<close>

lemma basename_join_plain:
  assumes "plain_name c"
  shows "os_path_basename (rstrip_sep (os_path_join pd c)) = c"
proof -
  have c: "c \<noteq> []" "CHR ''/'' \<notin> set c" using assms by (simp_all add: plain_name_def)
  then have hd: "hd c \<noteq> CHR ''/''" and lst: "last c \<noteq> CHR ''/''"
    by (metis list.set_sel(1), metis last_in_set)
  obtain X where X: "os_path_join pd c = X @ c" "X = [] \<or> last X = CHR ''/''"
  proof (cases "pd = [] \<or> last pd = CHR ''/''")
    case True
    then have "os_path_join pd c = pd @ c \<and> (pd = [] \<or> last pd = CHR ''/'')"
      using hd c by (simp add: os_path_join_def)
    then show ?thesis using that by blast
  next
    case False
    then have "os_path_join pd c = (pd @ ''/'') @ c \<and> last (pd @ ''/'') = CHR ''/''"
      using hd c by (simp add: os_path_join_def)
    then show ?thesis using that by blast
  qed
  have "rev (X @ c) = rev c @ rev X" by simp
  moreover have "dropWhile (\<lambda>ch. ch = CHR ''/'') (rev c @ rev X) = rev c @ rev X"
    using c lst by (cases "rev c") (auto simp: last_rev)
  ultimately have rs: "rstrip_sep (X @ c) = X @ c"
    by (simp add: rstrip_sep_def)
  have "takeWhile (\<lambda>ch. ch \<noteq> CHR ''/'') (rev c @ rev X) = rev c"
  proof (cases "X = []")
    case True
    then show ?thesis using c by (auto simp: takeWhile_eq_all_conv)
  next
    case False
    with X(2) have "hd (rev X) = CHR ''/''" by (simp add: hd_rev)
    moreover have "rev X \<noteq> []" using False by simp
    ultimately have tw: "takeWhile (\<lambda>ch. ch \<noteq> CHR ''/'') (rev X) = []"
      by (cases "rev X") auto
    have "takeWhile (\<lambda>ch. ch \<noteq> CHR ''/'') (rev c @ rev X)
          = rev c @ takeWhile (\<lambda>ch. ch \<noteq> CHR ''/'') (rev X)"
      using c by (intro takeWhile_append2) auto
    then show ?thesis using tw by simp
  qed
  then show ?thesis using X rs by (simp add: os_path_basename_def)
qed

lemma rmtree_if_exists:
  assumes "(if os_path_exists fs t then shutil_rmtree False t fs else (Inr (), fs)) = (Inr (), fs1)"
  shows "lookup fs1 (resolve t) = None
       \<and> (fs1 = fs \<and> lookup fs (resolve t) = None
          \<or> resolve t \<noteq> [] \<and> is_dir (lookup fs (resolve t)) \<and> fs1 = remove_at (resolve t) fs)"
proof (cases "lookup fs (resolve t)")
  case None
  with assms show ?thesis by (simp add: os_path_exists_def)
next
  case (Some m)
  show ?thesis
  proof (cases m)
    case (File c)
    with Some assms show ?thesis
      by (simp add: os_path_exists_def shutil_rmtree_def rmtree_def)
  next
    case (Dir es)
    with Some assms have "resolve t \<noteq> []" "fs1 = remove_at (resolve t) fs"
      by (auto simp: os_path_exists_def shutil_rmtree_def rmtree_def split: if_splits)
    with Some Dir show ?thesis by (simp add: lookup_remove_at_same)
  qed
qed

lemma os_makedirs_success:
  "os_makedirs b t fs = (Inr (), fs') \<longleftrightarrow> mkdirs b (resolve t) fs = Inr fs'"
  by (auto simp: os_makedirs_def split: sum.splits)

lemma rename_or_copy_fresh:
  assumes "rename_or_copy s rd fs = (Inr (), fs')"
    and "lookup fs rd = None" and "rd \<noteq> []" and "is_dir (lookup fs (butlast rd))"
  shows "\<exists>n. lookup fs s = Some n \<and> \<not> prefix s rd \<and> fs' = put_at rd n (remove_at s fs)"
proof (cases "lookup fs s")
  case None
  with assms(1) show ?thesis by (simp add: rename_or_copy_def)
next
  case (Some n)
  have ne: "s \<noteq> rd" using Some assms(2) by auto
  have np: "\<not> prefix s rd"
  proof
    assume "prefix s rd"
    with Some ne assms(1) show False
      by (cases n) (simp_all add: rename_or_copy_def)
  qed
  from assms(4) obtain es where es: "lookup fs (butlast rd) = Some (Dir es)"
    by (cases "lookup fs (butlast rd)") (auto simp: is_dir_def split: node.splits)
  have "fs' = put_at rd n (remove_at s fs)"
    using assms(1,2,3) Some ne np es by (simp add: rename_or_copy_def)
  with Some np show ?thesis by blast
qed

lemma shutil_move_into_empty:
  assumes mv: "shutil_move (os_path_join pd c) t fs = (Inr (), fs')"
    and c: "plain_name c"
    and t: "lookup fs (resolve t) = Some (Dir [])"
    and ne: "resolve (os_path_join pd c) \<noteq> resolve t"
  shows "\<exists>n. lookup fs (resolve pd @ [c]) = Some n
           \<and> \<not> prefix (resolve pd @ [c]) (resolve t @ [c])
           \<and> fs' = put_at (resolve t @ [c]) n (remove_at (resolve pd @ [c]) fs)"
proof -
  have S: "resolve (os_path_join pd c) = resolve pd @ [c]"
    using c by (rule resolve_join_plain)
  have rd: "resolve (os_path_join t (os_path_basename (rstrip_sep (os_path_join pd c)))) = resolve t @ [c]"
    using c by (simp add: basename_join_plain resolve_join_plain)
  have fresh: "lookup fs (resolve t @ [c]) = None"
    using t by (simp add: lookup_append)
  have "rename_or_copy (resolve pd @ [c]) (resolve t @ [c]) fs = (Inr (), fs')"
    using mv t ne S rd fresh
    by (simp add: shutil_move_def os_path_isdir_def os_path_exists_def Let_def)
  then show ?thesis
    using rename_or_copy_fresh [of "resolve pd @ [c]" "resolve t @ [c]" fs fs'] fresh t
    by simp
qed

lemma relocate_steps:
  assumes "relocate pfx src v fs = (Inr (), fs')"
  shows "\<exists>fs1 fs2.
     (if os_path_exists fs (os_path_join pfx v) then shutil_rmtree False (os_path_join pfx v) fs
      else (Inr (), fs)) = (Inr (), fs1)
     \<and> mkdirs False (resolve (os_path_join pfx v)) fs1 = Inr fs2
     \<and> shutil_move src (os_path_join pfx v) fs2 = (Inr (), fs')"
proof -
  let ?t = "os_path_join pfx v"
  obtain r1 fs1 where a: "(if os_path_exists fs ?t then shutil_rmtree False ?t fs
      else (Inr (), fs)) = (r1, fs1)" by (metis surj_pair)
  show ?thesis
  proof (cases r1)
    case (Inl e)
    with a assms show ?thesis by (simp add: relocate_def Let_def)
  next
    case (Inr u)
    obtain r2 fs2 where b: "os_makedirs False ?t fs1 = (r2, fs2)" by (metis surj_pair)
    show ?thesis
    proof (cases r2)
      case (Inl e)
      with a b Inr assms show ?thesis by (simp add: relocate_def Let_def)
    next
      case r2: (Inr u')
      with a b Inr assms have "shutil_move src ?t fs2 = (Inr (), fs')"
        by (simp add: relocate_def Let_def)
      moreover have "mkdirs False (resolve ?t) fs1 = Inr fs2"
        using b r2 os_makedirs_success [of False ?t fs1 fs2] by simp
      ultimately show ?thesis using a Inr by simp
    qed
  qed
qed

lemma relocate_success:
  assumes rel: "relocate pfx (os_path_join pd c) v fs = (Inr (), fs')"
    and c: "plain_name c"
    and ne: "resolve (os_path_join pd c) \<noteq> resolve (os_path_join pfx v)"
  shows "\<exists>n. lookup fs (resolve (os_path_join pd c)) = Some n
           \<and> lookup fs' (resolve (os_path_join pfx v)) = Some (Dir [(c, n)])
           \<and> lookup fs' (resolve (os_path_join pd c)) = None"
proof -
  let ?T = "resolve (os_path_join pfx v)"
  let ?S = "resolve pd @ [c]"
  have S: "resolve (os_path_join pd c) = ?S" using c by (rule resolve_join_plain)
  from relocate_steps [OF rel] obtain fs1 fs2 where
    a: "(if os_path_exists fs (os_path_join pfx v) then shutil_rmtree False (os_path_join pfx v) fs
      else (Inr (), fs)) = (Inr (), fs1)"
    and b: "mkdirs False ?T fs1 = Inr fs2"
    and m: "shutil_move (os_path_join pd c) (os_path_join pfx v) fs2 = (Inr (), fs')"
    by blast
  from rmtree_if_exists [OF a] have a1: "lookup fs1 ?T = None"
    and a2: "fs1 = fs \<or> fs1 = remove_at ?T fs" by auto
  have tE: "lookup fs2 ?T = Some (Dir [])" using mkdirs_creates_empty [OF b a1] .
  from shutil_move_into_empty [OF m c tE ne] obtain n where
    n: "lookup fs2 ?S = Some n" and np: "\<not> prefix ?S (?T @ [c])"
    and fs': "fs' = put_at (?T @ [c]) n (remove_at ?S fs2)" by blast
  have nST: "\<not> prefix ?S ?T" using np by (meson prefix_order.trans prefix_snoc)
  have nTS: "\<not> prefix ?T ?S"
  proof
    assume "prefix ?T ?S"
    with ne S have "strict_prefix ?T ?S" by (simp add: strict_prefix_def)
    with tE n show False using lookup_below_empty by fastforce
  qed
  have nTcS: "\<not> prefix (?T @ [c]) ?S"
    using nTS by (meson prefix_order.trans prefix_snoc prefix_order.refl)
  have "lookup fs1 ?S = lookup fs2 ?S"
    using lookup_mkdirs_parallel [OF b nTS nST] by simp
  moreover have "lookup fs ?S = lookup fs1 ?S"
    using a2 lookup_remove_at_parallel [OF nTS nST] by auto
  ultimately have src: "lookup fs ?S = Some n" using n by simp
  have "lookup (remove_at ?S fs2) ?T = Some (Dir [])"
    using lookup_remove_at_parallel [OF nST nTS] tE by simp
  then have tgt: "lookup fs' ?T = Some (Dir [(c, n)])"
    using fs' lookup_put_at_above [of "[c]" ?T n "remove_at ?S fs2"] by simp
  have "lookup (remove_at ?S fs2) ?S = None" by (simp add: lookup_remove_at_same)
  then have gone: "lookup fs' ?S = None"
    using fs' lookup_put_at_parallel [OF nTcS np] by simp
  show ?thesis using src tgt gone S by simp
qed

lemma wanted_plain: "c \<in> set WANTED_COMPONENTS \<Longrightarrow> plain_name c"
  by (auto simp: WANTED_COMPONENTS_def plain_name_def)


text \<open>
  Claim C1, as amended. Take a wanted archive that \<^verbatim>\<open>start\<close> processes without an exception,
  extracted into the platform directory, with version \<open>v\<close> (the one of its metadata, or
  \<^verbatim>\<open>unknown\<close>), where \<^verbatim>\<open><prefix>/v\<close> is an existing directory other than the working directory
  \<^verbatim>\<open><platform-dir>/<component>\<close> itself. Then \<^verbatim>\<open>shutil.rmtree\<close> removes the directory,
  \<^verbatim>\<open>os.makedirs\<close> recreates it empty, and \<^verbatim>\<open>shutil.move\<close> moves the working directory into it:
  afterwards \<^verbatim>\<open><prefix>/v\<close> holds the component and nothing else, \<^verbatim>\<open><prefix>/v/<component>\<close> is
  the tree that was extracted, and the working directory is gone.
\<close>

theorem relocation_replaces_target:
  assumes "process_archive (toolchain_prefix cfg) (platform_dir_of cfg) a fs = (Inr (), fs')"
    and "extract_archive a (platform_dir_of cfg) fs = (Inr True, fs1)"
    and "comp_of a = Inr c" and "c \<in> set WANTED_COMPONENTS"
    and "v = or_unknown (read_api_version fs1 (os_path_join (platform_dir_of cfg) c))"
    and "os_path_isdir fs1 (os_path_join (toolchain_prefix cfg) v)"
    and "resolve (os_path_join (toolchain_prefix cfg) v)
           \<noteq> resolve (os_path_join (platform_dir_of cfg) c)"
  shows "\<exists>n fsA fsB.
           lookup fs1 (resolve (os_path_join (platform_dir_of cfg) c)) = Some n
         \<and> shutil_rmtree False (os_path_join (toolchain_prefix cfg) v) fs1 = (Inr (), fsA)
         \<and> \<not> os_path_exists fsA (os_path_join (toolchain_prefix cfg) v)
         \<and> os_makedirs False (os_path_join (toolchain_prefix cfg) v) fsA = (Inr (), fsB)
         \<and> lookup fsB (resolve (os_path_join (toolchain_prefix cfg) v)) = Some (Dir [])
         \<and> shutil_move (os_path_join (platform_dir_of cfg) c)
              (os_path_join (toolchain_prefix cfg) v) fsB = (Inr (), fs')
         \<and> lookup fs' (resolve (os_path_join (toolchain_prefix cfg) v)) = Some (Dir [(c, n)])
         \<and> lookup fs' (resolve (os_path_join (os_path_join (toolchain_prefix cfg) v) c)) = Some n
         \<and> lookup fs' (resolve (os_path_join (platform_dir_of cfg) c)) = None"
proof -
  let ?pfx = "toolchain_prefix cfg"
  let ?src = "os_path_join (platform_dir_of cfg) c"
  let ?tgt = "os_path_join ?pfx v"
  have c: "plain_name c" using assms(4) by (rule wanted_plain)
  have rel: "relocate ?pfx ?src v fs1 = (Inr (), fs')"
    using assms(1,2,3,5) by (simp add: process_archive_def Let_def)
  have ne: "resolve ?src \<noteq> resolve ?tgt" using assms(7) by simp
  from relocate_success [OF rel c ne] obtain n where
    n: "lookup fs1 (resolve ?src) = Some n"
       "lookup fs' (resolve ?tgt) = Some (Dir [(c, n)])"
       "lookup fs' (resolve ?src) = None" by blast
  from relocate_steps [OF rel] obtain fsA fsB where
    a: "(if os_path_exists fs1 ?tgt then shutil_rmtree False ?tgt fs1 else (Inr (), fs1))
          = (Inr (), fsA)"
    and b: "mkdirs False (resolve ?tgt) fsA = Inr fsB"
    and m: "shutil_move ?src ?tgt fsB = (Inr (), fs')" by blast
  have ex: "os_path_exists fs1 ?tgt"
    using assms(6) by (auto simp: os_path_isdir_def os_path_exists_def is_dir_def split: option.splits)
  then have rm: "shutil_rmtree False ?tgt fs1 = (Inr (), fsA)" using a by simp
  have gone: "lookup fsA (resolve ?tgt) = None" using rmtree_if_exists [OF a] by simp
  then have nex: "\<not> os_path_exists fsA ?tgt" by (simp add: os_path_exists_def)
  have mk: "os_makedirs False ?tgt fsA = (Inr (), fsB)"
    using b by (simp add: os_makedirs_success)
  have empty: "lookup fsB (resolve ?tgt) = Some (Dir [])"
    using mkdirs_creates_empty [OF b gone] .
  have "resolve (os_path_join ?tgt c) = resolve ?tgt @ [c]"
    using c by (rule resolve_join_plain)
  then have landed: "lookup fs' (resolve (os_path_join ?tgt c)) = Some n"
    using n(2) by (simp add: lookup_append)
  show ?thesis using n rm nex mk empty m landed by blast
qed

theorem relocation_replaces_target_witness:
  "lookup fs_scenario (resolve ''/p/12'')
     = Some (Dir [(''native'', Dir [(''stale'', File (Plain ''old''))])])
   \<and> fst (process_archive ''/p'' ''/p/ohos-sdk/linux'' ''/p/ohos-sdk/linux/native-pkg.tar.gz'' fs_scenario)
       = Inr ()
   \<and> lookup (snd (process_archive ''/p'' ''/p/ohos-sdk/linux''
                     ''/p/ohos-sdk/linux/native-pkg.tar.gz'' fs_scenario)) (resolve ''/p/12'')
       = Some (Dir [(''native'', Dir [
            (''oh-uni-package.json'', File (JsonObject [(''apiVersion'', JStr ''12'')])),
            (''lib'', File (Plain ''new''))])])"
proof -
  let ?a = "''/p/ohos-sdk/linux/native-pkg.tar.gz''"
  let ?fs1 = "snd (extract_archive ?a (platform_dir_of cfg_linux) fs_scenario)"
  let ?fs' = "snd (process_archive (toolchain_prefix cfg_linux) (platform_dir_of cfg_linux) ?a fs_scenario)"
  have pd: "platform_dir_of cfg_linux = ''/p/ohos-sdk/linux''" by code_simp
  have px: "toolchain_prefix cfg_linux = ''/p''" by code_simp
  have f1: "fst (process_archive (toolchain_prefix cfg_linux) (platform_dir_of cfg_linux) ?a fs_scenario) = Inr ()"
    by code_simp
  then have h1: "process_archive (toolchain_prefix cfg_linux) (platform_dir_of cfg_linux) ?a fs_scenario
      = (Inr (), ?fs')" by (simp add: prod_eq_iff)
  have "fst (extract_archive ?a (platform_dir_of cfg_linux) fs_scenario) = Inr True"
    by code_simp
  then have h2: "extract_archive ?a (platform_dir_of cfg_linux) fs_scenario = (Inr True, ?fs1)"
    by (simp add: prod_eq_iff)
  have h3: "comp_of ?a = Inr ''native''" by code_simp
  have h4: "''native'' \<in> set WANTED_COMPONENTS" by code_simp
  have h5: "''12'' = or_unknown (read_api_version ?fs1 (os_path_join (platform_dir_of cfg_linux) ''native''))"
    by code_simp
  have h6: "os_path_isdir ?fs1 (os_path_join (toolchain_prefix cfg_linux) ''12'')" by code_simp
  have h7: "resolve (os_path_join (toolchain_prefix cfg_linux) ''12'')
              \<noteq> resolve (os_path_join (platform_dir_of cfg_linux) ''native'')" by code_simp
  have old: "lookup fs_scenario (resolve ''/p/12'')
     = Some (Dir [(''native'', Dir [(''stale'', File (Plain ''old''))])])" by code_simp
  have src: "lookup ?fs1 (resolve (os_path_join (platform_dir_of cfg_linux) ''native''))
     = Some (Dir [
            (''oh-uni-package.json'', File (JsonObject [(''apiVersion'', JStr ''12'')])),
            (''lib'', File (Plain ''new''))])" by code_simp
  have tg: "os_path_join (toolchain_prefix cfg_linux) ''12'' = ''/p/12''" by code_simp
  from relocation_replaces_target [OF h1 h2 h3 h4 h5 h6 h7] src
  have "lookup ?fs' (resolve (os_path_join (toolchain_prefix cfg_linux) ''12''))
     = Some (Dir [(''native'', Dir [
            (''oh-uni-package.json'', File (JsonObject [(''apiVersion'', JStr ''12'')])),
            (''lib'', File (Plain ''new''))])])" by auto
  then show ?thesis
    using old f1 pd px tg by simp
qed

text \<open>
  The claim as stated fails for an archive whose metadata gives, as its version, the path
  of its own working directory: the target directory exists (the extraction made it), it
  is removed and recreated, \<^verbatim>\<open>shutil.move\<close> of a directory onto itself does nothing, and the
  step ends without an exception with an empty target: no component at
  \<^verbatim>\<open><prefix>/<version>/<component>\<close>, and none anywhere once the run has removed the staging
  directory.
\<close>

theorem relocation_onto_working_directory:
  "comp_of ''/p/ohos-sdk/linux/native.zip'' = Inr ''native''
   \<and> fst (extract_archive ''/p/ohos-sdk/linux/native.zip'' ''/p/ohos-sdk/linux'' fs_version_is_workdir)
       = Inr True
   \<and> or_unknown (read_api_version
          (snd (extract_archive ''/p/ohos-sdk/linux/native.zip'' ''/p/ohos-sdk/linux''
                  fs_version_is_workdir))
          ''/p/ohos-sdk/linux/native'') = ''ohos-sdk/linux/native''
   \<and> os_path_isdir
         (snd (extract_archive ''/p/ohos-sdk/linux/native.zip'' ''/p/ohos-sdk/linux''
                 fs_version_is_workdir))
         (os_path_join ''/p'' ''ohos-sdk/linux/native'')
   \<and> fst (process_archive ''/p'' ''/p/ohos-sdk/linux'' ''/p/ohos-sdk/linux/native.zip''
              fs_version_is_workdir) = Inr ()
   \<and> lookup (snd (process_archive ''/p'' ''/p/ohos-sdk/linux'' ''/p/ohos-sdk/linux/native.zip''
                    fs_version_is_workdir))
         (resolve (os_path_join ''/p'' ''ohos-sdk/linux/native'')) = Some (Dir [])
   \<and> lookup (snd (process_archive ''/p'' ''/p/ohos-sdk/linux'' ''/p/ohos-sdk/linux/native.zip''
                    fs_version_is_workdir))
         (resolve (os_path_join (os_path_join ''/p'' ''ohos-sdk/linux/native'') ''native'')) = None
   \<and> start cfg_linux fs_version_is_workdir
       = (Inr (), Dir [(''p'', Dir [(''.ohos-sdk-version'', File (Plain (SDK_VERSION @ [CHR 0x0A])))])])"
  by code_simp

subsection \<open>Running the bootstrapper again\<close>










lemma marker_not_staging:
  "\<not> prefix (P @ [''ohos-sdk''] @ r) (P @ [''.ohos-sdk-version''])
   \<and> \<not> prefix (P @ [''.ohos-sdk-version'']) (P @ [''ohos-sdk''] @ r)"
  by simp















end
